theory Spec2Isabelle
  imports Complex_Main
begin

section \<open>Strings and paths\<close>

text \<open>
  A string is the sequence of the UTF-8 bytes of a string of the program. A prefix test, the
  search for the last dot and a slice at the dot give on the bytes what they give on the
  characters. \<open>str.lower()\<close> is not defined here: it is a parameter \<open>lower\<close> of the
  scanner and of the executor, and what is proved of them is proved for every such
  function, so for the one of the program. \<open>ascii_lower\<close> is \<open>str.lower()\<close> on the
  strings of ASCII characters; the sample folders, whose names are ASCII, are run with it.
\<close>

definition ascii_lower_char :: "char \<Rightarrow> char" where
  "ascii_lower_char c =
     (case map_of (zip ''ABCDEFGHIJKLMNOPQRSTUVWXYZ'' ''abcdefghijklmnopqrstuvwxyz'') c of
        None \<Rightarrow> c
      | Some d \<Rightarrow> d)"

definition ascii_lower :: "string \<Rightarrow> string" where
  "ascii_lower s = map ascii_lower_char s"

definition startswith :: "string \<Rightarrow> string \<Rightarrow> bool" where
  "startswith s p = (take (length p) s = p)"

definition str_contains :: "string \<Rightarrow> string \<Rightarrow> bool" where
  "str_contains s sub = list_ex (\<lambda>i. startswith (drop i s) sub) [0..<Suc (length s)]"

text \<open>
  A \<open>pathlib\<close> path in its POSIX flavour: whether it is anchored at the root directory,
  and its components. Two paths are equal when both agree (case-sensitively).
\<close>

datatype path = Path (absolute: bool) (parts: "string list")

fun join_sep :: "string list \<Rightarrow> string" where
  "join_sep [] = []"
| "join_sep [x] = x"
| "join_sep (x # y # ys) = x @ ''/'' @ join_sep (y # ys)"

definition pstr :: "path \<Rightarrow> string" where
  "pstr p =
     (if absolute p then ''/'' @ join_sep (parts p)
      else if parts p = [] then ''.'' else join_sep (parts p))"

definition name :: "path \<Rightarrow> string" where
  "name p = (if parts p = [] then [] else last (parts p))"

definition parent :: "path \<Rightarrow> path" where
  "parent p = Path (absolute p) (butlast (parts p))"

definition path_div :: "path \<Rightarrow> string \<Rightarrow> path" where
  "path_div p n = Path (absolute p) (parts p @ [n])"

text \<open>\<open>name.rfind('.')\<close>: the index of the last dot, or \<open>-1\<close>.\<close>

definition rfind_dot :: "string \<Rightarrow> int" where
  "rfind_dot n = int (length (dropWhile (\<lambda>c. c \<noteq> CHR ''.'') (rev n))) - 1"

definition suffix_of :: "string \<Rightarrow> string" where
  "suffix_of n =
     (let i = rfind_dot n
      in if 0 < i \<and> i < int (length n) - 1 then drop (nat i) n else [])"

definition stem_of :: "string \<Rightarrow> string" where
  "stem_of n =
     (let i = rfind_dot n
      in if 0 < i \<and> i < int (length n) - 1 then take (nat i) n else n)"

definition suffix :: "path \<Rightarrow> string" where
  "suffix p = suffix_of (name p)"

definition stem :: "path \<Rightarrow> string" where
  "stem p = stem_of (name p)"

section \<open>Configuration\<close>

definition TARGET_WIDTH :: int where
  "TARGET_WIDTH = 176"

definition TARGET_HEIGHT :: int where
  "TARGET_HEIGHT = 144"

definition VIDEO_EXTENSIONS :: "string list" where
  "VIDEO_EXTENSIONS =
     [''.mp4'', ''.avi'', ''.mkv'', ''.mov'', ''.wmv'', ''.flv'',
      ''.webm'', ''.m4v'', ''.mpeg'', ''.mpg'', ''.3gp'', ''.ts'', ''.vob'']"

section \<open>Values and exceptions\<close>

text \<open>
  What \<open>json.loads\<close> returns. \<open>JNull\<close> is Python's \<open>None\<close>. An object keeps the pairs
  in the order of the text; a repeated key is read at its last occurrence. A float is
  taken as the real number it denotes.
\<close>

datatype json =
    JNull
  | JBool bool
  | JInt int
  | JFloat real
  | JStr string
  | JArr "json list"
  | JObj "(string \<times> json) list"

datatype pyexn =
    TimeoutExpired
  | JSONDecodeError
  | TypeError
  | KeyError
  | AttributeError
  | FileNotFoundError
  | ZeroDivisionError
  | FFmpegFailed int
  | OutputNotCreated
  | OutputTooSmall nat

definition dict_get :: "(string \<times> json) list \<Rightarrow> string \<Rightarrow> json option" where
  "dict_get kvs k = map_of (rev kvs) k"

text \<open>\<open>k in v\<close> for a string \<open>k\<close>.\<close>

fun py_in :: "string \<Rightarrow> json \<Rightarrow> pyexn + bool" where
  "py_in k (JObj kvs) = Inr (dict_get kvs k \<noteq> None)"
| "py_in k (JArr xs) = Inr (JStr k \<in> set xs)"
| "py_in k (JStr s) = Inr (str_contains s k)"
| "py_in k _ = Inl TypeError"

text \<open>\<open>v[k]\<close> for a string \<open>k\<close>.\<close>

fun py_getitem_str :: "json \<Rightarrow> string \<Rightarrow> pyexn + json" where
  "py_getitem_str (JObj kvs) k = (case dict_get kvs k of None \<Rightarrow> Inl KeyError | Some v \<Rightarrow> Inr v)"
| "py_getitem_str _ k = Inl TypeError"

fun py_len :: "json \<Rightarrow> pyexn + nat" where
  "py_len (JArr xs) = Inr (length xs)"
| "py_len (JStr s) = Inr (length s)"
| "py_len (JObj kvs) = Inr (length (remdups (map fst kvs)))"
| "py_len _ = Inl TypeError"

text \<open>\<open>v[0]\<close>.\<close>

fun py_getitem0 :: "json \<Rightarrow> pyexn + json" where
  "py_getitem0 (JArr xs) = (case xs of [] \<Rightarrow> Inl KeyError | x # _ \<Rightarrow> Inr x)"
| "py_getitem0 (JStr s) = (case s of [] \<Rightarrow> Inl KeyError | c # _ \<Rightarrow> Inr (JStr [c]))"
| "py_getitem0 (JObj kvs) = Inl KeyError"
| "py_getitem0 _ = Inl TypeError"

text \<open>\<open>v.get(k)\<close>: only a dict has the method.\<close>

fun py_get :: "json \<Rightarrow> string \<Rightarrow> pyexn + json" where
  "py_get (JObj kvs) k = (case dict_get kvs k of None \<Rightarrow> Inr JNull | Some v \<Rightarrow> Inr v)"
| "py_get _ k = Inl AttributeError"

text \<open>\<open>v == n\<close> and \<open>v > n\<close> for an integer \<open>n\<close>.\<close>

fun py_eq_int :: "json \<Rightarrow> int \<Rightarrow> bool" where
  "py_eq_int (JInt i) n = (i = n)"
| "py_eq_int (JBool b) n = ((if b then 1 else 0) = n)"
| "py_eq_int (JFloat r) n = (r = of_int n)"
| "py_eq_int _ n = False"

fun py_gt_int :: "json \<Rightarrow> int \<Rightarrow> pyexn + bool" where
  "py_gt_int (JInt i) n = Inr (n < i)"
| "py_gt_int (JBool b) n = Inr (n < (if b then 1 else 0))"
| "py_gt_int (JFloat r) n = Inr (of_int n < r)"
| "py_gt_int _ n = Inl TypeError"

section \<open>The probe adapter\<close>

text \<open>
  One run of the external prober, as \<open>subprocess.run\<close> and \<open>json.loads\<close> see it: the call
  raises (the 10 second timeout), or the process exits with a return code and a standard
  output that either parses (\<open>Some\<close>) or does not (\<open>None\<close>).
\<close>

datatype probe_run = ProbeTimeout | ProbeExit int "json option"

text \<open>The \<open>try\<close> block of \<open>get_video_resolution\<close>.\<close>

definition probe_body :: "probe_run \<Rightarrow> pyexn + (json \<times> json) option" where
  "probe_body r =
     (case r of
        ProbeTimeout \<Rightarrow> Inl TimeoutExpired
      | ProbeExit returncode out \<Rightarrow>
          if returncode \<noteq> 0 then Inr None
          else (case out of
                  None \<Rightarrow> Inl JSONDecodeError
                | Some data \<Rightarrow>
                    (case py_in ''streams'' data of
                       Inl e \<Rightarrow> Inl e
                     | Inr False \<Rightarrow> Inr None
                     | Inr True \<Rightarrow>
                         (case py_getitem_str data ''streams'' of
                            Inl e \<Rightarrow> Inl e
                          | Inr ss \<Rightarrow>
                              (case py_len ss of
                                 Inl e \<Rightarrow> Inl e
                               | Inr n \<Rightarrow>
                                   if 0 < n then
                                     (case py_getitem0 ss of
                                        Inl e \<Rightarrow> Inl e
                                      | Inr stream \<Rightarrow>
                                          (case py_get stream ''width'' of
                                             Inl e \<Rightarrow> Inl e
                                           | Inr w \<Rightarrow>
                                               (case py_get stream ''height'' of
                                                  Inl e \<Rightarrow> Inl e
                                                | Inr h \<Rightarrow> Inr (Some (w, h)))))
                                   else Inr None)))))"

text \<open>\<open>get_video_resolution\<close>: the \<open>except Exception\<close> handler turns every raise into \<open>None\<close>.\<close>

definition get_video_resolution :: "(path \<Rightarrow> probe_run) \<Rightarrow> path \<Rightarrow> (json \<times> json) option" where
  "get_video_resolution prober file_path =
     (case probe_body (prober file_path) of Inl e \<Rightarrow> None | Inr r \<Rightarrow> r)"

section \<open>The world: file system, state map, state file\<close>

text \<open>
  The effects of the program are written as changes of a world: the regular files with their
  sizes in bytes, the in-memory state map \<open>self.state\<close>, the map last written to the state
  file, and the sequence of effects in program order. A path is a regular file exactly
  when the file map has a size for it (\<open>is_file\<close>, \<open>exists\<close>); directories lie at no path
  that the program unlinks or renames.
\<close>

datatype event =
    Probe path
  | Encode path path
  | Unlink path
  | Rename path path
  | Mutate string string
  | Persist "string \<Rightarrow> string option"

record world =
  files :: "path \<Rightarrow> nat option"
  state :: "string \<Rightarrow> string option"
  disk :: "string \<Rightarrow> string option"
  trace :: "event list"

definition log_event :: "event \<Rightarrow> world \<Rightarrow> world" where
  "log_event e w = w\<lparr>trace := trace w @ [e]\<rparr>"

text \<open>\<open>self.state[k] = v\<close>\<close>

definition set_state :: "string \<Rightarrow> string \<Rightarrow> world \<Rightarrow> world" where
  "set_state k v w = log_event (Mutate k v) (w\<lparr>state := (state w)(k \<mapsto> v)\<rparr>)"

text \<open>
  \<open>save_state\<close>: the whole map is written to the state file. The source only prints a
  warning when the write fails; here the write is taken to succeed.
\<close>

definition save_state :: "world \<Rightarrow> world" where
  "save_state w = log_event (Persist (state w)) (w\<lparr>disk := state w\<rparr>)"

definition unlink :: "path \<Rightarrow> world \<Rightarrow> world" where
  "unlink p w = log_event (Unlink p) (w\<lparr>files := (files w)(p := None)\<rparr>)"

definition rename :: "path \<Rightarrow> path \<Rightarrow> world \<Rightarrow> world" where
  "rename src dst w =
     log_event (Rename src dst) (w\<lparr>files := ((files w)(src := None))(dst := files w src)\<rparr>)"

section \<open>The scanner\<close>

record scan_acc =
  files_to_convert :: "(path \<times> json \<times> json) list"
  skipped :: nat
  already_done :: nat
  wld :: world

text \<open>\<open>a or b\<close>, where \<open>b\<close> is evaluated only when \<open>a\<close> is false.\<close>

definition py_or :: "pyexn + bool \<Rightarrow> pyexn + bool \<Rightarrow> pyexn + bool" where
  "py_or a b = (case a of Inl e \<Rightarrow> Inl e | Inr True \<Rightarrow> Inr True | Inr False \<Rightarrow> b)"

definition queue_file :: "path \<Rightarrow> json \<Rightarrow> json \<Rightarrow> scan_acc \<Rightarrow> scan_acc" where
  "queue_file file_path width height acc =
     acc\<lparr>files_to_convert := files_to_convert acc @ [(file_path, width, height)]\<rparr>"

definition mark_skipped :: "string \<Rightarrow> scan_acc \<Rightarrow> scan_acc" where
  "mark_skipped state_key acc =
     acc\<lparr>wld := set_state state_key ''skipped'' (wld acc), skipped := skipped acc + 1\<rparr>"

text \<open>
  One iteration of the loop of \<open>scan_videos\<close>. \<open>Inl\<close> is an exception that leaves the loop
  (a comparison of a non-number with the target), with the accumulator at that moment.
\<close>

definition scan_step ::
  "(string \<Rightarrow> string) \<Rightarrow> (path \<Rightarrow> probe_run) \<Rightarrow> scan_acc \<Rightarrow> path \<Rightarrow> (pyexn \<times> scan_acc) + scan_acc" where
  "scan_step lower prober acc file_path =
     (if files (wld acc) file_path = None then Inr acc
      else if lower (suffix file_path) \<notin> set VIDEO_EXTENSIONS then Inr acc
      else if startswith (name file_path) ''temp_'' then Inr acc
      else
        let state_key = lower (pstr file_path) in
        if state (wld acc) state_key = Some ''converted''
        then Inr (acc\<lparr>already_done := already_done acc + 1\<rparr>)
        else
          let acc1 = acc\<lparr>wld := log_event (Probe file_path) (wld acc)\<rparr> in
          case get_video_resolution prober file_path of
            None \<Rightarrow> Inr (acc1\<lparr>skipped := skipped acc1 + 1\<rparr>)
          | Some (width, height) \<Rightarrow>
              if lower (suffix file_path) = ''.3gp'' \<and> py_eq_int width TARGET_WIDTH
                 \<and> py_eq_int height TARGET_HEIGHT
              then Inr (mark_skipped state_key acc1)
              else
                (case py_or (py_gt_int width TARGET_WIDTH) (py_gt_int height TARGET_HEIGHT) of
                   Inl e \<Rightarrow> Inl (e, acc1)
                 | Inr True \<Rightarrow> Inr (queue_file file_path width height acc1)
                 | Inr False \<Rightarrow>
                     if py_eq_int width TARGET_WIDTH \<and> py_eq_int height TARGET_HEIGHT
                        \<and> lower (suffix file_path) \<noteq> ''.3gp''
                     then Inr (queue_file file_path width height acc1)
                     else Inr (mark_skipped state_key acc1)))"

fun scan_loop ::
  "(string \<Rightarrow> string) \<Rightarrow> (path \<Rightarrow> probe_run) \<Rightarrow> path list \<Rightarrow> scan_acc \<Rightarrow> (pyexn \<times> scan_acc) + scan_acc" where
  "scan_loop lower prober [] acc = Inr acc"
| "scan_loop lower prober (file_path # rest) acc =
     (case scan_step lower prober acc file_path of
        Inl x \<Rightarrow> Inl x
      | Inr acc' \<Rightarrow> scan_loop lower prober rest acc')"

text \<open>
  \<open>folder_path.rglob('*')\<close>: the entries below the root, each given by its components
  relative to the root, in the order of the enumeration.
\<close>

definition rglob :: "path \<Rightarrow> string list list \<Rightarrow> path list" where
  "rglob folder_path tree = map (\<lambda>rel. Path (absolute folder_path) (parts folder_path @ rel)) tree"

text \<open>
  \<open>scan_videos\<close>. An exception of the loop propagates to the caller: the state is not
  saved and no worklist is returned.
\<close>

definition scan_videos ::
  "(string \<Rightarrow> string) \<Rightarrow> (path \<Rightarrow> probe_run) \<Rightarrow> path \<Rightarrow> string list list \<Rightarrow> world
     \<Rightarrow> (pyexn \<times> world) + ((path \<times> json \<times> json) list \<times> world)" where
  "scan_videos lower prober folder_path tree w =
     (case scan_loop lower prober (rglob folder_path tree)
             \<lparr>files_to_convert = [], skipped = 0, already_done = 0, wld = w\<rparr> of
        Inl (e, acc) \<Rightarrow> Inl (e, wld acc)
      | Inr acc \<Rightarrow> Inr (files_to_convert acc, save_state (wld acc)))"

section \<open>The conversion executor\<close>

text \<open>
  One run of the external encoder, as \<open>subprocess.run\<close> sees it: the 300 second timeout or
  a return code; and what lies at the output path given on its command line afterwards
  (\<open>None\<close>: no file). The encoder is taken to write nowhere else.
\<close>

datatype enc_exit = EncTimeout | EncExit int

datatype enc_run = EncRun (outcome: enc_exit) (written: "nat option")

type_synonym encoder = "path \<Rightarrow> path \<Rightarrow> (path \<Rightarrow> nat option) \<Rightarrow> enc_run"

datatype conv_result =
    Success string real bool
  | Error string pyexn

text \<open>
  The \<open>try\<close> block of \<open>convert_video\<close> up to the status message: \<open>Inl\<close> is the exception
  raised and the world at that moment, \<open>Inr\<close> the world and the savings percentage (as an
  exact quotient).
\<close>

definition convert_body ::
  "encoder \<Rightarrow> bool \<Rightarrow> path \<Rightarrow> path \<Rightarrow> path \<Rightarrow> world \<Rightarrow> (pyexn \<times> world) + (world \<times> real)" where
  "convert_body enc keep_originals file_path temp_output final_output w =
     (let r = enc file_path temp_output (files w);
          w1 = log_event (Encode file_path temp_output)
                 (w\<lparr>files := (files w)(temp_output := written r)\<rparr>)
      in case outcome r of
           EncTimeout \<Rightarrow> Inl (TimeoutExpired, w1)
         | EncExit returncode \<Rightarrow>
             if returncode \<noteq> 0 then Inl (FFmpegFailed returncode, w1)
             else
               (case files w1 temp_output of
                  None \<Rightarrow> Inl (OutputNotCreated, w1)
                | Some temp_size \<Rightarrow>
                    if temp_size < 1024 then Inl (OutputTooSmall temp_size, w1)
                    else
                      let w2 = (if files w1 final_output \<noteq> None then unlink final_output w1 else w1);
                          w3 = rename temp_output final_output w2
                      in (case files w3 file_path of
                            None \<Rightarrow> Inl (FileNotFoundError, w3)
                          | Some original_size \<Rightarrow>
                              (case files w3 final_output of
                                 None \<Rightarrow> Inl (FileNotFoundError, w3)
                               | Some new_size \<Rightarrow>
                                   if original_size = 0 then Inl (ZeroDivisionError, w3)
                                   else
                                     let savings = (real original_size - real new_size)
                                                     / real original_size * 100
                                     in if \<not> keep_originals
                                        then Inr (unlink file_path w3, savings)
                                        else Inr (w3, savings)))))"

definition temp_output_of :: "path \<Rightarrow> path" where
  "temp_output_of file_path = path_div (parent file_path) (''temp_'' @ stem file_path @ ''.3gp'')"

definition final_output_of :: "path \<Rightarrow> path" where
  "final_output_of file_path = path_div (parent file_path) (stem file_path @ ''.3gp'')"

definition convert_video ::
  "(string \<Rightarrow> string) \<Rightarrow> encoder \<Rightarrow> bool \<Rightarrow> path \<times> json \<times> json \<Rightarrow> world \<Rightarrow> conv_result \<times> world" where
  "convert_video lower enc keep_originals file_info w =
     (let file_path = fst file_info;
          temp_output = temp_output_of file_path;
          final_output = final_output_of file_path;
          state_key = lower (pstr file_path)
      in (case convert_body enc keep_originals file_path temp_output final_output w of
            Inr (w1, savings) \<Rightarrow>
              (Success (name file_path) savings keep_originals,
               save_state (set_state state_key ''converted'' w1))
          | Inl (e, w1) \<Rightarrow>
              (Error (name file_path) e,
               save_state (set_state state_key ''failed''
                 (if files w1 temp_output \<noteq> None then unlink temp_output w1 else w1)))))"

section \<open>The scheduler with one worker\<close>


section \<open>The probe contract in the words of the specification\<close>




section \<open>The decision of the scanner for one file\<close>

text \<open>
  The decision that one iteration of the scan loop takes, separated from its effects. It
  depends on the world only through the files and through the keys marked \<open>converted\<close>,
  neither of which the scan changes.
\<close>

datatype verdict = VIgnore | VDone | VNoProbe | VRaise pyexn | VQueue json json | VSkip

definition verdict_of :: "(string \<Rightarrow> string) \<Rightarrow> (path \<Rightarrow> probe_run) \<Rightarrow> world \<Rightarrow> path \<Rightarrow> verdict" where
  "verdict_of lower prober w file_path =
     (if files w file_path = None then VIgnore
      else if lower (suffix file_path) \<notin> set VIDEO_EXTENSIONS then VIgnore
      else if startswith (name file_path) ''temp_'' then VIgnore
      else if state w (lower (pstr file_path)) = Some ''converted'' then VDone
      else
        case get_video_resolution prober file_path of
          None \<Rightarrow> VNoProbe
        | Some (width, height) \<Rightarrow>
            if lower (suffix file_path) = ''.3gp'' \<and> py_eq_int width TARGET_WIDTH
               \<and> py_eq_int height TARGET_HEIGHT
            then VSkip
            else
              (case py_or (py_gt_int width TARGET_WIDTH) (py_gt_int height TARGET_HEIGHT) of
                 Inl e \<Rightarrow> VRaise e
               | Inr True \<Rightarrow> VQueue width height
               | Inr False \<Rightarrow>
                   if py_eq_int width TARGET_WIDTH \<and> py_eq_int height TARGET_HEIGHT
                      \<and> lower (suffix file_path) \<noteq> ''.3gp''
                   then VQueue width height
                   else VSkip))"

definition queued_of :: "(path \<Rightarrow> verdict) \<Rightarrow> path list \<Rightarrow> (path \<times> json \<times> json) list" where
  "queued_of v ps =
     concat (map (\<lambda>p. case v p of VQueue a b \<Rightarrow> [(p, a, b)] | _ \<Rightarrow> []) ps)"

definition skip_keys :: "(string \<Rightarrow> string) \<Rightarrow> (path \<Rightarrow> verdict) \<Rightarrow> path list \<Rightarrow> string list" where
  "skip_keys lower v ps = map (\<lambda>p. lower (pstr p)) (filter (\<lambda>p. v p = VSkip) ps)"

definition mark_all :: "string list \<Rightarrow> (string \<Rightarrow> string option) \<Rightarrow> (string \<Rightarrow> string option)" where
  "mark_all ks st = fold (\<lambda>k m. m(k \<mapsto> ''skipped'')) ks st"

definition scan_events :: "(string \<Rightarrow> string) \<Rightarrow> (path \<Rightarrow> verdict) \<Rightarrow> path list \<Rightarrow> event list" where
  "scan_events lower v ps =
     concat (map (\<lambda>p. case v p of
                         VIgnore \<Rightarrow> []
                       | VDone \<Rightarrow> []
                       | VSkip \<Rightarrow> [Probe p, Mutate (lower (pstr p)) ''skipped'']
                       | _ \<Rightarrow> [Probe p]) ps)"

section \<open>A sample folder\<close>

text \<open>
  One 640 by 480 \<open>.mp4\<close>, one 176 by 144 \<open>.3gp\<close>, one 176 by 144 \<open>.mp4\<close> and one
  120 by 90 \<open>.avi\<close>, with an empty state; and what the scan makes of it.
\<close>

definition report :: "int \<Rightarrow> int \<Rightarrow> probe_run" where
  "report width height =
     ProbeExit 0 (Some (JObj [(''streams'', JArr [JObj [(''width'', JInt width), (''height'', JInt height)]])]))"

definition demo_root :: path where
  "demo_root = Path True [''videos'']"

definition demo_tree :: "string list list" where
  "demo_tree = [[''movie.mp4''], [''phone.3gp''], [''small.mp4''], [''tiny.avi'']]"

definition demo_file :: "string \<Rightarrow> path" where
  "demo_file n = Path True [''videos'', n]"

definition demo_prober :: "path \<Rightarrow> probe_run" where
  "demo_prober p =
     (if name p = ''movie.mp4'' then report 640 480
      else if name p = ''tiny.avi'' then report 120 90
      else report 176 144)"

definition demo_world :: world where
  "demo_world =
     \<lparr>files = [demo_file ''movie.mp4'' \<mapsto> 900000, demo_file ''phone.3gp'' \<mapsto> 40000,
               demo_file ''small.mp4'' \<mapsto> 50000, demo_file ''tiny.avi'' \<mapsto> 30000],
      state = Map.empty, disk = Map.empty, trace = []\<rparr>"

definition demo_state :: "string \<Rightarrow> string option" where
  "demo_state = [''/videos/phone.3gp'' \<mapsto> ''skipped'', ''/videos/tiny.avi'' \<mapsto> ''skipped'']"

definition demo_scanned :: world where
  "demo_scanned =
     demo_world\<lparr>state := demo_state, disk := demo_state,
       trace := [Probe (demo_file ''movie.mp4''),
                 Probe (demo_file ''phone.3gp''), Mutate ''/videos/phone.3gp'' ''skipped'',
                 Probe (demo_file ''small.mp4''),
                 Probe (demo_file ''tiny.avi''), Mutate ''/videos/tiny.avi'' ''skipped'',
                 Persist demo_state]\<rparr>"

definition demo_worklist :: "(path \<times> json \<times> json) list" where
  "demo_worklist =
     [(demo_file ''movie.mp4'', JInt 640, JInt 480), (demo_file ''small.mp4'', JInt 176, JInt 144)]"

definition demo_resumed :: world where
  "demo_resumed = demo_world\<lparr>state := [''/videos/movie.mp4'' \<mapsto> ''converted'']\<rparr>"


section \<open>Failure of an encoder run, in the words of the specification\<close>

text \<open>
  A conversion fails when the encoder times out, exits nonzero, leaves no output file, or
  leaves one smaller than 1024 bytes; the reason reported is the first of these that
  applies.
\<close>

definition encode_failed :: "enc_run \<Rightarrow> bool" where
  "encode_failed r =
     (case outcome r of
        EncTimeout \<Rightarrow> True
      | EncExit returncode \<Rightarrow>
          if returncode \<noteq> 0 then True
          else (case written r of None \<Rightarrow> True | Some temp_size \<Rightarrow> temp_size < 1024))"

definition failure_reason :: "enc_run \<Rightarrow> pyexn" where
  "failure_reason r =
     (case outcome r of
        EncTimeout \<Rightarrow> TimeoutExpired
      | EncExit returncode \<Rightarrow>
          if returncode \<noteq> 0 then FFmpegFailed returncode
          else (case written r of
                  None \<Rightarrow> OutputNotCreated
                | Some temp_size \<Rightarrow> OutputTooSmall temp_size))"

section \<open>A sample oversized file in the target container\<close>

definition demo_encoder :: encoder where
  "demo_encoder = (\<lambda>input output fs. EncRun (EncExit 0) (Some 20000))"

definition demo_failing_encoder :: encoder where
  "demo_failing_encoder = (\<lambda>input output fs. EncRun (EncExit 1) (Some 300))"

definition demo_big :: world where
  "demo_big =
     \<lparr>files = [demo_file ''big.3gp'' \<mapsto> 800000], state = Map.empty, disk = Map.empty,
      trace = []\<rparr>"

section \<open>When the state map is written and when it is saved\<close>

fun is_state_event :: "event \<Rightarrow> bool" where
  "is_state_event (Mutate k v) = True"
| "is_state_event (Persist m) = True"
| "is_state_event _ = False"

definition state_events :: "event list \<Rightarrow> event list" where
  "state_events es = filter is_state_event es"

text \<open>
  Every mutation of the map is followed by a save of the map before the next mutation:
  read on the mutations and saves of a run, in their order.
\<close>

fun persisted_promptly :: "event list \<Rightarrow> bool" where
  "persisted_promptly [] = True"
| "persisted_promptly (Mutate k v # Persist m # es) = persisted_promptly es"
| "persisted_promptly (Mutate k v # es) = False"
| "persisted_promptly (e # es) = persisted_promptly es"

section \<open>A sample folder given by a relative path\<close>

definition demo_relative_root :: path where
  "demo_relative_root = Path False [''videos'']"

definition demo_relative :: world where
  "demo_relative =
     \<lparr>files = [Path False [''videos'', ''tiny.avi''] \<mapsto> 30000], state = Map.empty,
      disk = Map.empty, trace = []\<rparr>"

definition demo_relative_scanned :: world where
  "demo_relative_scanned =
     demo_relative\<lparr>state := [''videos/tiny.avi'' \<mapsto> ''skipped''],
       disk := [''videos/tiny.avi'' \<mapsto> ''skipped''],
       trace := [Probe (Path False [''videos'', ''tiny.avi'']),
                 Mutate ''videos/tiny.avi'' ''skipped'',
                 Persist [''videos/tiny.avi'' \<mapsto> ''skipped'']]\<rparr>"

text \<open>A path component as a directory entry has it: not empty, without a separator.\<close>

definition plain_component :: "string \<Rightarrow> bool" where
  "plain_component c = (c \<noteq> [] \<and> CHR ''/'' \<notin> set c)"

section \<open>Two runs over one folder\<close>



definition demo_tree_after :: "string list list" where
  "demo_tree_after = [[''movie.3gp''], [''phone.3gp''], [''small.3gp''], [''tiny.avi'']]"



section \<open>Sample folders: two names with one key, an extension in upper case\<close>




definition demo_big_upper :: world where
  "demo_big_upper =
     \<lparr>files = [demo_file ''big.3GP'' \<mapsto> 800000], state = Map.empty, disk = Map.empty,
      trace = []\<rparr>"

section \<open>Paths: stem, suffix and the output names\<close>

lemma stem_suffix: "stem_of n @ suffix_of n = n"
  by (simp add: stem_of_def suffix_of_def Let_def)

lemma rfind_dot_3gp: "rfind_dot (x @ ''.3gp'') = int (length x)"
  by (simp add: rfind_dot_def)

lemma stem_of_3gp: "x \<noteq> [] \<Longrightarrow> stem_of (x @ ''.3gp'') = x"
  by (simp add: stem_of_def rfind_dot_3gp Let_def)


lemma final_output_self:
  assumes "parts p \<noteq> []" and "suffix p = ''.3gp''"
  shows "final_output_of p = p"
proof -
  have "stem p @ ''.3gp'' = name p"
    using stem_suffix [of "name p"] assms(2) by (simp add: stem_def suffix_def)
  then have "parts (final_output_of p) = butlast (parts p) @ [last (parts p)]"
    using assms(1) by (simp add: final_output_of_def path_div_def parent_def name_def)
  then show ?thesis
    using assms(1) by (cases p) (simp add: final_output_of_def path_div_def parent_def)
qed

lemma temp_name_ne: "''temp_'' @ stem_of n @ ''.3gp'' \<noteq> n"
proof
  assume eq: "''temp_'' @ stem_of n @ ''.3gp'' = n"
  have "stem_of ((''temp_'' @ stem_of n) @ ''.3gp'') = ''temp_'' @ stem_of n"
    by (rule stem_of_3gp) simp
  with eq have "stem_of n = ''temp_'' @ stem_of n" by simp
  then have "length (stem_of n) = length (''temp_'' @ stem_of n)" by simp
  then show False by simp
qed

lemma temp_output_ne_self: "temp_output_of p \<noteq> p"
proof (cases "parts p = []")
  case True
  then show ?thesis by (cases p) (simp add: temp_output_of_def path_div_def parent_def)
next
  case False
  have "parts (temp_output_of p) = butlast (parts p) @ [''temp_'' @ stem_of (last (parts p)) @ ''.3gp'']"
    using False by (simp add: temp_output_of_def path_div_def parent_def stem_def name_def)
  moreover have "parts p = butlast (parts p) @ [last (parts p)]"
    using False by simp
  ultimately show ?thesis
    using temp_name_ne [of "last (parts p)"] by (metis append1_eq_conv)
qed

lemma temp_output_ne_final: "temp_output_of p \<noteq> final_output_of p"
proof
  assume "temp_output_of p = final_output_of p"
  then have "''temp_'' @ stem p @ ''.3gp'' = stem p @ ''.3gp''"
    by (simp add: temp_output_of_def final_output_of_def path_div_def)
  then have "length (''temp_'' @ stem p @ ''.3gp'') = length (stem p @ ''.3gp'')"
    by (rule arg_cong)
  then show False by simp
qed

section \<open>The probe adapter keeps its contract\<close>



section \<open>The scan loop, characterised\<close>

lemma scan_step_Inr:
  assumes "scan_step lower prober acc p = Inr acc1"
  shows "files_to_convert acc1 = files_to_convert acc @ queued_of (verdict_of lower prober (wld acc)) [p]"
    and "files (wld acc1) = files (wld acc)"
    and "disk (wld acc1) = disk (wld acc)"
    and "state (wld acc1) = mark_all (skip_keys lower (verdict_of lower prober (wld acc)) [p]) (state (wld acc))"
    and "trace (wld acc1) = trace (wld acc) @ scan_events lower (verdict_of lower prober (wld acc)) [p]"
    and "\<forall>e. verdict_of lower prober (wld acc) p \<noteq> VRaise e"
  using assms
  by (auto simp: scan_step_def verdict_of_def Let_def queued_of_def skip_keys_def mark_all_def
        scan_events_def queue_file_def mark_skipped_def set_state_def log_event_def
      split: if_splits option.splits sum.splits bool.splits)

lemma scan_step_view:
  assumes "scan_step lower prober acc p = Inr acc1"
  shows "verdict_of lower prober (wld acc1) = verdict_of lower prober (wld acc)"
proof
  fix q
  have f: "files (wld acc1) = files (wld acc)"
    using assms by (rule scan_step_Inr)
  have "(state (wld acc1) k = Some ''converted'') = (state (wld acc) k = Some ''converted'')" for k
    using assms
    by (auto simp: scan_step_def Let_def queue_file_def mark_skipped_def set_state_def log_event_def
          split: if_splits option.splits sum.splits bool.splits)
  then show "verdict_of lower prober (wld acc1) q = verdict_of lower prober (wld acc) q"
    using f by (simp add: verdict_of_def)
qed

lemma scan_loop_Inr:
  "scan_loop lower prober ps acc = Inr acc' \<Longrightarrow>
     files_to_convert acc' = files_to_convert acc @ queued_of (verdict_of lower prober (wld acc)) ps
     \<and> files (wld acc') = files (wld acc)
     \<and> disk (wld acc') = disk (wld acc)
     \<and> state (wld acc') = mark_all (skip_keys lower (verdict_of lower prober (wld acc)) ps) (state (wld acc))
     \<and> trace (wld acc') = trace (wld acc) @ scan_events lower (verdict_of lower prober (wld acc)) ps
     \<and> (\<forall>p\<in>set ps. \<forall>e. verdict_of lower prober (wld acc) p \<noteq> VRaise e)"
proof (induction ps arbitrary: acc)
  case Nil
  then show ?case
    by (simp add: queued_of_def skip_keys_def mark_all_def scan_events_def)
next
  case (Cons p ps)
  from Cons.prems obtain acc1 where
    step: "scan_step lower prober acc p = Inr acc1" and rest: "scan_loop lower prober ps acc1 = Inr acc'"
    by (auto split: sum.splits)
  note s = scan_step_Inr [OF step] and v = scan_step_view [OF step]
  note ih = Cons.IH [OF rest, unfolded v]
  have q: "queued_of vf (p # ps) = queued_of vf [p] @ queued_of vf ps" for vf
    by (simp add: queued_of_def)
  have k: "mark_all (skip_keys lower vf (p # ps)) st = mark_all (skip_keys lower vf ps) (mark_all (skip_keys lower vf [p]) st)" for vf st
    by (simp add: mark_all_def skip_keys_def)
  have e: "scan_events lower vf (p # ps) = scan_events lower vf [p] @ scan_events lower vf ps" for vf
    by (simp add: scan_events_def)
  show ?case
    using ih s by (simp add: q k e)
qed


lemma mark_all_miss: "k \<notin> set ks \<Longrightarrow> mark_all ks st k = st k"
  unfolding mark_all_def by (induction ks arbitrary: st rule: rev_induct) auto

lemma skip_keys_not_converted:
  "k \<in> set (skip_keys lower (verdict_of lower prober w) ps) \<Longrightarrow> state w k \<noteq> Some ''converted''"
  by (auto simp: skip_keys_def verdict_of_def split: if_splits)

lemma in_queued_of:
  "((p, a, b) \<in> set (queued_of v ps)) = (p \<in> set ps \<and> v p = VQueue a b)"
  by (induction ps) (auto simp: queued_of_def split: verdict.splits)

lemma fst_queued_of:
  "(p \<in> fst ` set (queued_of v ps)) = (p \<in> set ps \<and> (\<exists>a b. v p = VQueue a b))"
proof -
  have "(p \<in> fst ` set (queued_of v ps)) = (\<exists>a b. (p, a, b) \<in> set (queued_of v ps))"
    by force
  then show ?thesis by (simp add: in_queued_of)
qed


lemma scan_videos_Inr:
  assumes "scan_videos lower prober folder_path tree w = Inr (worklist, w')"
  shows "worklist = queued_of (verdict_of lower prober w) (rglob folder_path tree)"
    and "files w' = files w"
    and "state w' = mark_all (skip_keys lower (verdict_of lower prober w) (rglob folder_path tree)) (state w)"
    and "disk w' = state w'"
    and "trace w' = trace w @ scan_events lower (verdict_of lower prober w) (rglob folder_path tree)
                      @ [Persist (state w')]"
    and "\<forall>p\<in>set (rglob folder_path tree). \<forall>e. verdict_of lower prober w p \<noteq> VRaise e"
proof -
  let ?acc = "\<lparr>files_to_convert = [], skipped = 0, already_done = 0, wld = w\<rparr>"
  from assms obtain acc where
    loop: "scan_loop lower prober (rglob folder_path tree) ?acc = Inr acc"
    and wl: "worklist = files_to_convert acc" and w': "w' = save_state (wld acc)"
    by (auto simp: scan_videos_def split: sum.splits)
  note c = scan_loop_Inr [OF loop]
  show "worklist = queued_of (verdict_of lower prober w) (rglob folder_path tree)"
    using c wl by simp
  show "files w' = files w"
    using c w' by (simp add: save_state_def log_event_def)
  show "state w' = mark_all (skip_keys lower (verdict_of lower prober w) (rglob folder_path tree)) (state w)"
    using c w' by (simp add: save_state_def log_event_def)
  show "disk w' = state w'"
    using w' by (simp add: save_state_def log_event_def)
  show "trace w' = trace w @ scan_events lower (verdict_of lower prober w) (rglob folder_path tree)
                      @ [Persist (state w')]"
    using c w' by (simp add: save_state_def log_event_def)
  show "\<forall>p\<in>set (rglob folder_path tree). \<forall>e. verdict_of lower prober w p \<noteq> VRaise e"
    using c by simp
qed

section \<open>The classification policy\<close>




section \<open>The sample folder, scanned\<close>

lemmas scan_eval =
  scan_videos_def rglob_def scan_step_def get_video_resolution_def probe_body_def dict_get_def
  ascii_lower_def ascii_lower_char_def suffix_def suffix_of_def name_def rfind_dot_def VIDEO_EXTENSIONS_def
  startswith_def pstr_def TARGET_WIDTH_def TARGET_HEIGHT_def py_or_def mark_skipped_def
  queue_file_def set_state_def save_state_def log_event_def Let_def

lemmas demo_eval =
  report_def demo_root_def demo_tree_def demo_file_def demo_prober_def demo_world_def
  demo_state_def demo_scanned_def demo_worklist_def

lemma demo_scan:
  "scan_videos ascii_lower demo_prober demo_root demo_tree demo_world = Inr (demo_worklist, demo_scanned)"
  by (simp add: scan_eval demo_eval)


section \<open>Files already converted, files that cannot be probed\<close>

lemma scan_step_converted:
  assumes "scan_step lower prober acc p = Inr acc1"
  shows "(state (wld acc1) k = Some ''converted'') = (state (wld acc) k = Some ''converted'')"
  using assms
  by (auto simp: scan_step_def Let_def queue_file_def mark_skipped_def set_state_def log_event_def
        split: if_splits option.splits sum.splits bool.splits)

lemma scan_step_Inl:
  assumes "scan_step lower prober acc p = Inl (e, acc1)"
  shows "wld acc1 = log_event (Probe p) (wld acc)"
    and "state (wld acc) (lower (pstr p)) \<noteq> Some ''converted''"
  using assms
  by (auto simp: scan_step_def Let_def queue_file_def mark_skipped_def
        split: if_splits option.splits sum.splits bool.splits)

lemma verdict_converted:
  "state w (lower (pstr p)) = Some ''converted''
     \<Longrightarrow> verdict_of lower prober w p = VIgnore \<or> verdict_of lower prober w p = VDone"
  by (simp add: verdict_of_def)

lemma scan_events_probe_verdict:
  assumes "Probe q \<in> set (scan_events lower v ps)"
  shows "v q \<noteq> VIgnore \<and> v q \<noteq> VDone"
proof -
  from assms obtain p where
    m: "Probe q \<in> set (case v p of
                         VIgnore \<Rightarrow> []
                       | VDone \<Rightarrow> []
                       | VSkip \<Rightarrow> [Probe p, Mutate (lower (pstr p)) ''skipped'']
                       | _ \<Rightarrow> [Probe p])"
    by (auto simp: scan_events_def)
  then show ?thesis
    by (cases "v p") auto
qed

lemma scan_events_probe:
  "Probe q \<in> set (scan_events lower (verdict_of lower prober w) ps)
     \<Longrightarrow> state w (lower (pstr q)) \<noteq> Some ''converted''"
  using scan_events_probe_verdict verdict_converted by blast

lemma scan_loop_no_probe:
  assumes "state (wld acc) (lower (pstr q)) = Some ''converted''"
    and "Probe q \<notin> set (trace (wld acc))"
  shows "case scan_loop lower prober ps acc of
           Inl (e, acc') \<Rightarrow> Probe q \<notin> set (trace (wld acc'))
         | Inr acc' \<Rightarrow> Probe q \<notin> set (trace (wld acc'))"
  using assms
proof (induction ps arbitrary: acc)
  case Nil
  then show ?case by simp
next
  case (Cons p ps)
  show ?case
  proof (cases "scan_step lower prober acc p")
    case (Inl x)
    obtain e acc1 where x: "x = (e, acc1)" by (cases x)
    note l = scan_step_Inl [OF Inl [unfolded x]]
    from l(2) Cons.prems(1) have "p \<noteq> q" by auto
    then show ?thesis
      using Inl x l(1) Cons.prems(2) by (simp add: log_event_def)
  next
    case (Inr acc1)
    have 1: "state (wld acc1) (lower (pstr q)) = Some ''converted''"
      using scan_step_converted [OF Inr] Cons.prems(1) by simp
    have "Probe q \<notin> set (scan_events lower (verdict_of lower prober (wld acc)) [p])"
      using scan_events_probe Cons.prems(1) by blast
    then have 2: "Probe q \<notin> set (trace (wld acc1))"
      using scan_step_Inr(5) [OF Inr] Cons.prems(2) by simp
    show ?thesis
      using Cons.IH [OF 1 2] Inr by simp
  qed
qed

text \<open>
  C7. A file whose key is marked \<open>converted\<close> when the scan starts is never probed by the
  scan, whether the scan returns or is left by an exception; when the scan returns, the
  file is not in the worklist and its key is still marked \<open>converted\<close>. The key is
  \<open>lower (pstr file_path)\<close> for whatever function \<open>lower\<close> the scan is run with, so for
  \<open>str.lower()\<close> on every name, ASCII or not.
\<close>

theorem converted_never_requeued:
  assumes "state w (lower (pstr file_path)) = Some ''converted''"
    and "Probe file_path \<notin> set (trace w)"
  shows "case scan_videos lower prober folder_path tree w of
           Inl (e, w') \<Rightarrow> Probe file_path \<notin> set (trace w')
         | Inr (worklist, w') \<Rightarrow>
             Probe file_path \<notin> set (trace w') \<and> file_path \<notin> fst ` set worklist
             \<and> state w' (lower (pstr file_path)) = Some ''converted''"
proof -
  let ?acc = "\<lparr>files_to_convert = [], skipped = 0, already_done = 0, wld = w\<rparr>"
  have np: "case scan_loop lower prober (rglob folder_path tree) ?acc of
           Inl (e, acc') \<Rightarrow> Probe file_path \<notin> set (trace (wld acc'))
         | Inr acc' \<Rightarrow> Probe file_path \<notin> set (trace (wld acc'))"
    by (rule scan_loop_no_probe) (use assms in simp_all)
  show ?thesis
  proof (cases "scan_videos lower prober folder_path tree w")
    case (Inl x)
    then show ?thesis
      using np by (auto simp: scan_videos_def split: sum.splits)
  next
    case (Inr y)
    obtain worklist w' where y: "y = (worklist, w')" by (cases y)
    note s = scan_videos_Inr [OF Inr [unfolded y]]
    have v: "verdict_of lower prober w file_path = VIgnore \<or> verdict_of lower prober w file_path = VDone"
      using assms(1) by (rule verdict_converted)
    have a: "file_path \<notin> fst ` set worklist"
      unfolding s(1) fst_queued_of using v by auto
    have "lower (pstr file_path) \<notin> set (skip_keys lower (verdict_of lower prober w) (rglob folder_path tree))"
      using skip_keys_not_converted assms(1) by blast
    then have b: "state w' (lower (pstr file_path)) = Some ''converted''"
      unfolding s(3) using assms(1) by (simp add: mark_all_miss)
    have "Probe file_path \<notin> set (scan_events lower (verdict_of lower prober w) (rglob folder_path tree))"
      using scan_events_probe assms(1) by blast
    then have c: "Probe file_path \<notin> set (trace w')"
      unfolding s(5) using assms(2) by simp
    show ?thesis
      using Inr y a b c by simp
  qed
qed

theorem converted_never_requeued_witness:
  "state demo_resumed (ascii_lower (pstr (demo_file ''movie.mp4''))) = Some ''converted''
   \<and> Probe (demo_file ''movie.mp4'') \<notin> set (trace demo_resumed)
   \<and> (case scan_videos ascii_lower demo_prober demo_root demo_tree demo_resumed of
         Inl (e, w') \<Rightarrow> Probe (demo_file ''movie.mp4'') \<notin> set (trace w')
       | Inr (worklist, w') \<Rightarrow>
           Probe (demo_file ''movie.mp4'') \<notin> set (trace w')
           \<and> demo_file ''movie.mp4'' \<notin> fst ` set worklist
           \<and> state w' (ascii_lower (pstr (demo_file ''movie.mp4''))) = Some ''converted'')"
proof -
  have h1: "state demo_resumed (ascii_lower (pstr (demo_file ''movie.mp4''))) = Some ''converted''"
    by (simp add: scan_eval demo_eval demo_resumed_def)
  have h2: "Probe (demo_file ''movie.mp4'') \<notin> set (trace demo_resumed)"
    by (simp add: demo_eval demo_resumed_def)
  from converted_never_requeued
         [where lower = ascii_lower and prober = demo_prober and folder_path = demo_root
            and tree = demo_tree, OF h1 h2]
       h1 h2
  show ?thesis by simp
qed

lemma scan_step_probe_failed:
  assumes "files (wld acc) file_path \<noteq> None"
    and "lower (suffix file_path) \<in> set VIDEO_EXTENSIONS"
    and "\<not> startswith (name file_path) ''temp_''"
    and "state (wld acc) (lower (pstr file_path)) \<noteq> Some ''converted''"
    and "get_video_resolution prober file_path = None"
  shows "scan_step lower prober acc file_path =
           Inr (acc\<lparr>wld := log_event (Probe file_path) (wld acc), skipped := skipped acc + 1\<rparr>)"
proof -
  from assms(1) obtain sz where f: "files (wld acc) file_path = Some sz" by auto
  show ?thesis
    unfolding scan_step_def using f assms(2-5) by (simp add: Let_def)
qed







section \<open>The conversion executor, characterised\<close>

lemmas convert_eval =
  convert_video_def convert_body_def temp_output_of_def final_output_of_def path_div_def
  parent_def stem_def stem_of_def name_def rfind_dot_def unlink_def rename_def set_state_def
  save_state_def log_event_def ascii_lower_def ascii_lower_char_def pstr_def Let_def

lemma convert_video_failed:
  assumes "encode_failed (enc file_path (temp_output_of file_path) (files w))"
  shows "convert_video lower enc keep_originals (file_path, width, height) w =
           (Error (name file_path)
              (failure_reason (enc file_path (temp_output_of file_path) (files w))),
            w\<lparr>files := (files w)(temp_output_of file_path := None),
              state := (state w)(lower (pstr file_path) \<mapsto> ''failed''),
              disk := (state w)(lower (pstr file_path) \<mapsto> ''failed''),
              trace := trace w @ Encode file_path (temp_output_of file_path)
                 # (if written (enc file_path (temp_output_of file_path) (files w)) = None
                    then [] else [Unlink (temp_output_of file_path)])
                 @ [Mutate (lower (pstr file_path)) ''failed'',
                    Persist ((state w)(lower (pstr file_path) \<mapsto> ''failed''))]\<rparr>)"
proof (cases "enc file_path (temp_output_of file_path) (files w)")
  case (EncRun oc wr)
  show ?thesis
  proof (cases oc)
    case EncTimeout
    then show ?thesis
      using EncRun
      by (cases wr)
         (simp_all add: convert_video_def convert_body_def failure_reason_def unlink_def
            set_state_def save_state_def log_event_def Let_def)
  next
    case (EncExit rc)
    show ?thesis
    proof (cases "rc = 0")
      case False
      then show ?thesis
        using EncRun EncExit
        by (cases wr)
           (simp_all add: convert_video_def convert_body_def failure_reason_def unlink_def
              set_state_def save_state_def log_event_def Let_def)
    next
      case True
      then show ?thesis
        using EncRun EncExit assms
        by (cases wr)
           (simp_all add: convert_video_def convert_body_def failure_reason_def unlink_def
              set_state_def save_state_def log_event_def encode_failed_def Let_def)
    qed
  qed
qed

lemma convert_video_same_path:
  assumes "final_output_of file_path = file_path"
    and "files w file_path = Some original_size"
    and "enc file_path (temp_output_of file_path) (files w) = EncRun (EncExit 0) (Some temp_size)"
    and "1024 \<le> temp_size"
  shows "convert_video lower enc keep_originals (file_path, width, height) w =
           (Success (name file_path) 0 keep_originals,
            w\<lparr>files := (files w)(temp_output_of file_path := None,
                          file_path := (if keep_originals then Some temp_size else None)),
              state := (state w)(lower (pstr file_path) \<mapsto> ''converted''),
              disk := (state w)(lower (pstr file_path) \<mapsto> ''converted''),
              trace := trace w @ [Encode file_path (temp_output_of file_path),
                                  Unlink file_path,
                                  Rename (temp_output_of file_path) file_path]
                 @ (if keep_originals then [] else [Unlink file_path])
                 @ [Mutate (lower (pstr file_path)) ''converted'',
                    Persist ((state w)(lower (pstr file_path) \<mapsto> ''converted''))]\<rparr>)"
proof -
  have t: "temp_output_of file_path \<noteq> file_path" "file_path \<noteq> temp_output_of file_path"
    using temp_output_ne_self [of file_path] by auto
  have z: "temp_size \<noteq> 0" "\<not> temp_size < 1024"
    using assms(4) by auto
  show ?thesis
    using assms(2,3) t z
    by (cases keep_originals)
       (simp_all add: convert_video_def convert_body_def assms(1) unlink_def rename_def
          set_state_def save_state_def log_event_def fun_upd_twist Let_def)
qed


lemma convert_video_replaced:
  assumes "final_output_of file_path \<noteq> file_path"
    and "files w file_path = Some original_size"
    and "original_size \<noteq> 0"
    and "enc file_path (temp_output_of file_path) (files w) = EncRun (EncExit 0) (Some temp_size)"
    and "1024 \<le> temp_size"
  shows "convert_video lower enc keep_originals (file_path, width, height) w =
           (Success (name file_path)
              ((real original_size - real temp_size) / real original_size * 100) keep_originals,
            w\<lparr>files :=
                (if keep_originals
                 then (files w)(temp_output_of file_path := None,
                                final_output_of file_path \<mapsto> temp_size)
                 else (files w)(temp_output_of file_path := None,
                                final_output_of file_path \<mapsto> temp_size,
                                file_path := None)),
              state := (state w)(lower (pstr file_path) \<mapsto> ''converted''),
              disk := (state w)(lower (pstr file_path) \<mapsto> ''converted''),
              trace := trace w @ Encode file_path (temp_output_of file_path)
                 # (if files w (final_output_of file_path) = None then []
                    else [Unlink (final_output_of file_path)])
                 @ Rename (temp_output_of file_path) (final_output_of file_path)
                 # (if keep_originals then [] else [Unlink file_path])
                 @ [Mutate (lower (pstr file_path)) ''converted'',
                    Persist ((state w)(lower (pstr file_path) \<mapsto> ''converted''))]\<rparr>)"
proof -
  have t: "temp_output_of file_path \<noteq> file_path" "file_path \<noteq> temp_output_of file_path"
    "temp_output_of file_path \<noteq> final_output_of file_path"
    "final_output_of file_path \<noteq> temp_output_of file_path"
    using temp_output_ne_self [of file_path] temp_output_ne_final [of file_path] by auto
  have f: "file_path \<noteq> final_output_of file_path"
    using assms(1) by auto
  have z: "\<not> temp_size < 1024"
    using assms(5) by auto
  show ?thesis
  proof (cases "files w (final_output_of file_path)")
    case None
    then show ?thesis
      using assms(1-4) t f z
      by (cases keep_originals)
         (simp_all add: convert_video_def convert_body_def unlink_def rename_def
            set_state_def save_state_def log_event_def Let_def fun_upd_twist)
  next
    case (Some old)
    then show ?thesis
      using assms(1-4) t f z
      by (cases keep_originals)
         (simp_all add: convert_video_def convert_body_def unlink_def rename_def
            set_state_def save_state_def log_event_def Let_def fun_upd_twist)
  qed
qed

section \<open>A source already in the target container\<close>

text \<open>
  C3, as stated, fails for a source whose extension is the target container in another
  spelling. The scan queues the oversized \<open>/videos/big.3GP\<close>; its final output path is
  \<open>/videos/big.3gp\<close>, another path; converted with keep-originals, the source is not
  unlinked at all, the output lies beside it, and the savings are those of two files.
\<close>

theorem upper_case_source_not_replaced:
  "scan_videos ascii_lower (\<lambda>p. report 640 480) demo_root [[''big.3GP'']] demo_big_upper
     = Inr ([(demo_file ''big.3GP'', JInt 640, JInt 480)],
            demo_big_upper\<lparr>trace := [Probe (demo_file ''big.3GP''), Persist Map.empty]\<rparr>)
   \<and> final_output_of (demo_file ''big.3GP'') = demo_file ''big.3gp''
   \<and> demo_file ''big.3gp'' \<noteq> demo_file ''big.3GP''
   \<and> fst (convert_video ascii_lower demo_encoder True
             (demo_file ''big.3GP'', JInt 640, JInt 480) demo_big_upper)
       = Success ''big.3GP'' ((real 800000 - real 20000) / real 800000 * 100) True
   \<and> files (snd (convert_video ascii_lower demo_encoder True
                    (demo_file ''big.3GP'', JInt 640, JInt 480) demo_big_upper))
        (demo_file ''big.3GP'') = Some 800000
   \<and> files (snd (convert_video ascii_lower demo_encoder True
                    (demo_file ''big.3GP'', JInt 640, JInt 480) demo_big_upper))
        (demo_file ''big.3gp'') = Some 20000
   \<and> trace (snd (convert_video ascii_lower demo_encoder True
                    (demo_file ''big.3GP'', JInt 640, JInt 480) demo_big_upper))
       = [Encode (demo_file ''big.3GP'') (demo_file ''temp_big.3gp''),
          Rename (demo_file ''temp_big.3gp'') (demo_file ''big.3gp''),
          Mutate ''/videos/big.3gp'' ''converted'',
          Persist [''/videos/big.3gp'' \<mapsto> ''converted'']]"
  by (simp add: scan_eval convert_eval report_def demo_root_def demo_file_def demo_big_upper_def
        demo_encoder_def)

text \<open>
  C3, amended. For a source whose extension is spelled exactly \<open>.3gp\<close> the final output
  path is the input path. When the encoder succeeds with a valid output, \<open>convert_video\<close>
  unlinks the source at that path before the rename, with or without keep-originals; the
  savings are computed from the size of the converted file against itself and are zero;
  without keep-originals the converted file, just renamed, is unlinked as the original, so
  no file is left at the path; and in both cases the state is set to \<open>converted\<close>, saved,
  and a success is returned.
\<close>

theorem same_container_source_replaced:
  assumes "parts file_path \<noteq> []"
    and "suffix file_path = ''.3gp''"
    and "files w file_path = Some original_size"
    and "enc file_path (temp_output_of file_path) (files w) = EncRun (EncExit 0) (Some temp_size)"
    and "1024 \<le> temp_size"
  shows "final_output_of file_path = file_path
         \<and> convert_video lower enc keep_originals (file_path, width, height) w =
           (Success (name file_path) 0 keep_originals,
            w\<lparr>files := (files w)(temp_output_of file_path := None,
                          file_path := (if keep_originals then Some temp_size else None)),
              state := (state w)(lower (pstr file_path) \<mapsto> ''converted''),
              disk := (state w)(lower (pstr file_path) \<mapsto> ''converted''),
              trace := trace w @ [Encode file_path (temp_output_of file_path),
                                  Unlink file_path,
                                  Rename (temp_output_of file_path) file_path]
                 @ (if keep_originals then [] else [Unlink file_path])
                 @ [Mutate (lower (pstr file_path)) ''converted'',
                    Persist ((state w)(lower (pstr file_path) \<mapsto> ''converted''))]\<rparr>)"
proof -
  have same: "final_output_of file_path = file_path"
    using assms(1,2) by (rule final_output_self)
  show ?thesis
    using same convert_video_same_path [where enc = enc, OF same assms(3-5)] by simp
qed

theorem same_container_source_replaced_witness:
  "parts (demo_file ''big.3gp'') \<noteq> []
   \<and> suffix (demo_file ''big.3gp'') = ''.3gp''
   \<and> files demo_big (demo_file ''big.3gp'') = Some 800000
   \<and> demo_encoder (demo_file ''big.3gp'') (temp_output_of (demo_file ''big.3gp'')) (files demo_big)
       = EncRun (EncExit 0) (Some 20000)
   \<and> (1024::nat) \<le> 20000
   \<and> final_output_of (demo_file ''big.3gp'') = demo_file ''big.3gp''
   \<and> fst (convert_video ascii_lower demo_encoder False (demo_file ''big.3gp'', JInt 640, JInt 480) demo_big)
       = Success ''big.3gp'' 0 False
   \<and> files (snd (convert_video ascii_lower demo_encoder False (demo_file ''big.3gp'', JInt 640, JInt 480) demo_big))
        (demo_file ''big.3gp'') = None"
proof -
  have h1: "parts (demo_file ''big.3gp'') \<noteq> []"
    by (simp add: demo_file_def)
  have h2: "suffix (demo_file ''big.3gp'') = ''.3gp''"
    by (simp add: demo_file_def suffix_def suffix_of_def name_def rfind_dot_def)
  have h3: "files demo_big (demo_file ''big.3gp'') = Some 800000"
    by (simp add: demo_big_def)
  have h4: "demo_encoder (demo_file ''big.3gp'') (temp_output_of (demo_file ''big.3gp''))
              (files demo_big) = EncRun (EncExit 0) (Some 20000)"
    by (simp add: demo_encoder_def)
  have h5: "(1024::nat) \<le> 20000"
    by simp
  have n: "name (demo_file ''big.3gp'') = ''big.3gp''"
    by (simp add: demo_file_def name_def)
  from same_container_source_replaced
         [where lower = ascii_lower and enc = demo_encoder and keep_originals = False
            and width = "JInt 640"
            and height = "JInt 480", OF h1 h2 h3 h4 h5]
  show ?thesis
    using h1 h2 h3 h4 n by simp
qed

section \<open>Failure of a conversion\<close>

text \<open>
  C5. When the encoder times out, exits nonzero, leaves no output or leaves an output
  smaller than 1024 bytes, \<open>convert_video\<close> returns an error result with the name of the
  file and the reason; the temp output, if there is one, is unlinked; the state entry of
  the file is set to \<open>failed\<close> and the map is saved; no other file is touched, and the
  source in particular is as it was.
\<close>

theorem conversion_failure_handled:
  assumes "encode_failed (enc file_path (temp_output_of file_path) (files w))"
  shows "convert_video lower enc keep_originals (file_path, width, height) w =
           (Error (name file_path)
              (failure_reason (enc file_path (temp_output_of file_path) (files w))),
            w\<lparr>files := (files w)(temp_output_of file_path := None),
              state := (state w)(lower (pstr file_path) \<mapsto> ''failed''),
              disk := (state w)(lower (pstr file_path) \<mapsto> ''failed''),
              trace := trace w @ Encode file_path (temp_output_of file_path)
                 # (if written (enc file_path (temp_output_of file_path) (files w)) = None
                    then [] else [Unlink (temp_output_of file_path)])
                 @ [Mutate (lower (pstr file_path)) ''failed'',
                    Persist ((state w)(lower (pstr file_path) \<mapsto> ''failed''))]\<rparr>)
         \<and> ((files w)(temp_output_of file_path := None)) file_path = files w file_path"
  using convert_video_failed [where enc = enc, OF assms] temp_output_ne_self [of file_path] by simp

theorem conversion_failure_handled_witness:
  "encode_failed (demo_failing_encoder (demo_file ''movie.mp4'')
      (temp_output_of (demo_file ''movie.mp4'')) (files demo_world))
   \<and> fst (convert_video ascii_lower demo_failing_encoder False (demo_file ''movie.mp4'', JInt 640, JInt 480)
            demo_world) = Error ''movie.mp4'' (FFmpegFailed 1)
   \<and> files (snd (convert_video ascii_lower demo_failing_encoder False
                    (demo_file ''movie.mp4'', JInt 640, JInt 480) demo_world))
        (demo_file ''movie.mp4'') = Some 900000
   \<and> files (snd (convert_video ascii_lower demo_failing_encoder False
                    (demo_file ''movie.mp4'', JInt 640, JInt 480) demo_world))
        (temp_output_of (demo_file ''movie.mp4'')) = None
   \<and> state (snd (convert_video ascii_lower demo_failing_encoder False
                    (demo_file ''movie.mp4'', JInt 640, JInt 480) demo_world))
        ''/videos/movie.mp4'' = Some ''failed''"
proof -
  have h: "encode_failed (demo_failing_encoder (demo_file ''movie.mp4'')
      (temp_output_of (demo_file ''movie.mp4'')) (files demo_world))"
    by (simp add: encode_failed_def demo_failing_encoder_def)
  have n: "name (demo_file ''movie.mp4'') = ''movie.mp4''"
    by (simp add: demo_file_def name_def)
  have k: "ascii_lower (pstr (demo_file ''movie.mp4'')) = ''/videos/movie.mp4''"
    by (simp add: demo_file_def pstr_def ascii_lower_def ascii_lower_char_def)
  have r: "failure_reason (demo_failing_encoder (demo_file ''movie.mp4'')
      (temp_output_of (demo_file ''movie.mp4'')) (files demo_world)) = FFmpegFailed 1"
    by (simp add: failure_reason_def demo_failing_encoder_def)
  have f: "files demo_world (demo_file ''movie.mp4'') = Some 900000"
    by (simp add: demo_world_def demo_file_def)
  from conversion_failure_handled
         [where lower = ascii_lower and enc = demo_failing_encoder and keep_originals = False
            and width = "JInt 640"
            and height = "JInt 480", OF h]
  show ?thesis
    using h n k r f by simp
qed

section \<open>Success of a conversion\<close>

text \<open>
  C4. The success postcondition fails for a source in the target container. The oversized
  \<open>/videos/big.3gp\<close> is converted without keep-originals and the encoder succeeds: the
  original is unlinked before the rename, as the file lying at the final output path; after
  the rename the converted file is unlinked as the original; no file is left, and the
  call reports a success and records \<open>converted\<close>.
\<close>

theorem original_deleted_before_rename:
  "convert_video ascii_lower demo_encoder False (demo_file ''big.3gp'', JInt 640, JInt 480) demo_big =
     (Success ''big.3gp'' 0 False,
      \<lparr>files = Map.empty,
       state = [''/videos/big.3gp'' \<mapsto> ''converted''],
       disk = [''/videos/big.3gp'' \<mapsto> ''converted''],
       trace = [Encode (demo_file ''big.3gp'') (demo_file ''temp_big.3gp''),
                Unlink (demo_file ''big.3gp''),
                Rename (demo_file ''temp_big.3gp'') (demo_file ''big.3gp''),
                Unlink (demo_file ''big.3gp''),
                Mutate ''/videos/big.3gp'' ''converted'',
                Persist [''/videos/big.3gp'' \<mapsto> ''converted'']]\<rparr>)"
  by (simp add: convert_eval demo_file_def demo_big_def demo_encoder_def)

section \<open>Saving the state map\<close>

lemma state_events_append: "state_events (xs @ ys) = state_events xs @ state_events ys"
  by (simp add: state_events_def)

lemma state_events_scan:
  "state_events (scan_events lower v ps) = map (\<lambda>k. Mutate k ''skipped'') (skip_keys lower v ps)"
proof (induction ps)
  case Nil
  then show ?case by (simp add: state_events_def scan_events_def skip_keys_def)
next
  case (Cons p ps)
  have "scan_events lower v (p # ps) = scan_events lower v [p] @ scan_events lower v ps"
    by (simp add: scan_events_def)
  moreover have "skip_keys lower v (p # ps) = skip_keys lower v [p] @ skip_keys lower v ps"
    by (simp add: skip_keys_def)
  moreover have "state_events (scan_events lower v [p]) = map (\<lambda>k. Mutate k ''skipped'') (skip_keys lower v [p])"
    by (cases "v p") (simp_all add: state_events_def scan_events_def skip_keys_def)
  ultimately show ?case
    using Cons.IH by (simp add: state_events_append)
qed

lemma no_state_event_member:
  "state_events evs = [] \<Longrightarrow> e \<in> set evs \<Longrightarrow> \<not> is_state_event e"
  by (auto simp: state_events_def filter_empty_conv)

lemma convert_body_frame:
  assumes "convert_body enc keep_originals file_path temp_output final_output w = r"
    and "w1 = (case r of Inl (e, w') \<Rightarrow> w' | Inr (w', s) \<Rightarrow> w')"
  shows "state w1 = state w \<and> disk w1 = disk w
         \<and> (\<exists>evs. trace w1 = trace w @ evs \<and> state_events evs = [])"
proof -
  obtain oc wr where e: "enc file_path temp_output (files w) = EncRun oc wr"
    by (cases "enc file_path temp_output (files w)")
  show ?thesis
  proof (cases oc)
    case EncTimeout
    then show ?thesis
      using assms e
      by (auto simp: convert_body_def Let_def log_event_def state_events_def)
  next
    case (EncExit rc)
    show ?thesis
    proof (cases "rc \<noteq> 0 \<or> wr = None \<or> (\<exists>sz. wr = Some sz \<and> sz < 1024)")
      case True
      then show ?thesis
        using assms e EncExit
        by (auto simp: convert_body_def Let_def log_event_def state_events_def)
    next
      case False
      then obtain sz where ok: "rc = 0" "wr = Some sz" "\<not> sz < 1024"
        by auto
      show ?thesis
        using assms e EncExit ok
        by (auto simp: convert_body_def Let_def log_event_def unlink_def rename_def
              state_events_def split: option.splits if_splits)
    qed
  qed
qed

lemma convert_video_trace:
  assumes "convert_video lower enc keep_originals file_info w = (res, w')"
  shows "\<exists>evs v. trace w' = trace w @ evs @ [Mutate (lower (pstr (fst file_info))) v, Persist (state w')]
           \<and> state_events evs = []
           \<and> state w' = (state w)(lower (pstr (fst file_info)) \<mapsto> v)
           \<and> disk w' = state w'
           \<and> (v = ''converted'' \<or> v = ''failed'')"
proof -
  let ?p = "fst file_info"
  let ?r = "convert_body enc keep_originals ?p (temp_output_of ?p) (final_output_of ?p) w"
  show ?thesis
  proof (cases ?r)
    case (Inl x)
    obtain e w1 where x: "x = (e, w1)" by (cases x)
    from convert_body_frame [where enc = enc, OF Inl] x
    obtain evs where f: "state w1 = state w" "disk w1 = disk w"
      "trace w1 = trace w @ evs" "state_events evs = []"
      by auto
    show ?thesis
    proof (cases "files w1 (temp_output_of ?p)")
      case None
      then show ?thesis
        using assms Inl x f
        by (auto simp: convert_video_def Let_def set_state_def save_state_def log_event_def)
    next
      case (Some sz)
      have "state_events (evs @ [Unlink (temp_output_of ?p)]) = []"
        using f(4) by (simp add: state_events_def)
      then show ?thesis
        using assms Inl x f Some
        by (auto simp: convert_video_def Let_def set_state_def save_state_def log_event_def
              unlink_def intro!: exI [of _ "evs @ [Unlink (temp_output_of ?p)]"])
    qed
  next
    case (Inr y)
    obtain w1 s where y: "y = (w1, s)" by (cases y)
    from convert_body_frame [where enc = enc, OF Inr] y
    obtain evs where f: "state w1 = state w" "disk w1 = disk w"
      "trace w1 = trace w @ evs" "state_events evs = []"
      by auto
    show ?thesis
      using assms Inr y f
      by (auto simp: convert_video_def Let_def set_state_def save_state_def log_event_def)
  qed
qed

text \<open>
  C6, as stated, fails: in the sample folder the scan marks two files \<open>skipped\<close>, and the
  second mutation comes before any save.
\<close>

theorem scan_batches_skip_marks:
  "scan_videos ascii_lower demo_prober demo_root demo_tree demo_world = Inr (demo_worklist, demo_scanned)
   \<and> state_events (trace demo_scanned)
       = [Mutate ''/videos/phone.3gp'' ''skipped'', Mutate ''/videos/tiny.avi'' ''skipped'',
          Persist demo_state]
   \<and> \<not> persisted_promptly (state_events (trace demo_scanned))"
  using demo_scan by (simp add: demo_scanned_def state_events_def)

text \<open>
  C6, amended. During the scan the skip markings are mutations of the map in memory,
  and the map is saved once, after the loop: the saves and mutations of a scan that
  returns are one mutation to \<open>skipped\<close> per skip classification, then a single save of
  the full map. During a conversion the terminal outcome is one mutation of the key of the
  file, to \<open>converted\<close> or \<open>failed\<close>, followed at once by a save of the full map.
\<close>

theorem state_saved_after_scan_and_after_each_outcome:
  assumes "scan_videos lower prober folder_path tree w = Inr (worklist, w1)"
    and "convert_video lower enc keep_originals file_info w2 = (res, w3)"
  shows "(\<exists>ks. state_events (drop (length (trace w)) (trace w1))
                 = map (\<lambda>k. Mutate k ''skipped'') ks @ [Persist (state w1)]
              \<and> state w1 = mark_all ks (state w) \<and> disk w1 = state w1)
         \<and> (\<exists>v. state_events (drop (length (trace w2)) (trace w3))
                 = [Mutate (lower (pstr (fst file_info))) v, Persist (state w3)]
              \<and> state w3 = (state w2)(lower (pstr (fst file_info)) \<mapsto> v)
              \<and> disk w3 = state w3
              \<and> (v = ''converted'' \<or> v = ''failed''))
         \<and> persisted_promptly (state_events (drop (length (trace w2)) (trace w3)))"
proof -
  note s = scan_videos_Inr [OF assms(1)]
  let ?ks = "skip_keys lower (verdict_of lower prober w) (rglob folder_path tree)"
  have "state_events (drop (length (trace w)) (trace w1))
          = map (\<lambda>k. Mutate k ''skipped'') ?ks @ [Persist (state w1)]"
    unfolding s(5) by (simp add: state_events_append state_events_scan) (simp add: state_events_def)
  then have a: "\<exists>ks. state_events (drop (length (trace w)) (trace w1))
                 = map (\<lambda>k. Mutate k ''skipped'') ks @ [Persist (state w1)]
              \<and> state w1 = mark_all ks (state w) \<and> disk w1 = state w1"
    using s(3,4) by blast
  from convert_video_trace [where enc = enc, OF assms(2)]
  obtain evs v where c: "trace w3 = trace w2 @ evs @ [Mutate (lower (pstr (fst file_info))) v, Persist (state w3)]"
    "state_events evs = []" "state w3 = (state w2)(lower (pstr (fst file_info)) \<mapsto> v)"
    "disk w3 = state w3" "v = ''converted'' \<or> v = ''failed''"
    by blast
  have e: "state_events (drop (length (trace w2)) (trace w3))
             = [Mutate (lower (pstr (fst file_info))) v, Persist (state w3)]"
    unfolding c(1) using c(2) by (simp add: state_events_append) (simp add: state_events_def)
  have b: "\<exists>v. state_events (drop (length (trace w2)) (trace w3))
                 = [Mutate (lower (pstr (fst file_info))) v, Persist (state w3)]
              \<and> state w3 = (state w2)(lower (pstr (fst file_info)) \<mapsto> v)
              \<and> disk w3 = state w3
              \<and> (v = ''converted'' \<or> v = ''failed'')"
    using e c(3,4,5) by blast
  have p: "persisted_promptly (state_events (drop (length (trace w2)) (trace w3)))"
    unfolding e by simp
  show ?thesis
    using a b p by blast
qed


theorem state_saved_after_scan_and_after_each_outcome_witness:
  "scan_videos ascii_lower demo_prober demo_root demo_tree demo_world = Inr (demo_worklist, demo_scanned)
   \<and> convert_video ascii_lower demo_encoder False (demo_file ''big.3gp'', JInt 640, JInt 480) demo_big
       = (fst (convert_video ascii_lower demo_encoder False (demo_file ''big.3gp'', JInt 640, JInt 480) demo_big),
          snd (convert_video ascii_lower demo_encoder False (demo_file ''big.3gp'', JInt 640, JInt 480) demo_big))
   \<and> (\<exists>ks. state_events (drop (length (trace demo_world)) (trace demo_scanned))
                 = map (\<lambda>k. Mutate k ''skipped'') ks @ [Persist (state demo_scanned)]
              \<and> state demo_scanned = mark_all ks (state demo_world)
              \<and> disk demo_scanned = state demo_scanned)
   \<and> persisted_promptly (state_events (drop (length (trace demo_big))
        (trace (snd (convert_video ascii_lower demo_encoder False
                       (demo_file ''big.3gp'', JInt 640, JInt 480) demo_big)))))"
proof -
  have h1: "scan_videos ascii_lower demo_prober demo_root demo_tree demo_world
              = Inr (demo_worklist, demo_scanned)"
    by (rule demo_scan)
  have h2: "convert_video ascii_lower demo_encoder False (demo_file ''big.3gp'', JInt 640, JInt 480) demo_big
       = (fst (convert_video ascii_lower demo_encoder False (demo_file ''big.3gp'', JInt 640, JInt 480) demo_big),
          snd (convert_video ascii_lower demo_encoder False (demo_file ''big.3gp'', JInt 640, JInt 480) demo_big))"
    by simp
  from state_saved_after_scan_and_after_each_outcome [where enc = demo_encoder, OF h1 h2]
  show ?thesis
    using h1 by simp
qed

section \<open>The keys of the state map\<close>

lemma startswith_slash: "startswith s ''/'' = (s \<noteq> [] \<and> hd s = CHR ''/'')"
  by (cases s) (simp_all add: startswith_def)

lemma pstr_absolute: "absolute p \<Longrightarrow> startswith (pstr p) ''/''"
  by (simp add: pstr_def startswith_def)

lemma join_sep_hd: "c \<noteq> [] \<Longrightarrow> hd (join_sep (c # cs)) = hd c \<and> join_sep (c # cs) \<noteq> []"
  by (cases cs) simp_all

lemma pstr_relative:
  assumes "\<not> absolute p" and "\<forall>c\<in>set (parts p). plain_component c"
  shows "\<not> startswith (pstr p) ''/''"
proof (cases "parts p")
  case Nil
  then show ?thesis
    using assms(1) by (simp add: pstr_def startswith_def)
next
  case (Cons c cs)
  then have pc: "plain_component c"
    using assms(2) by simp
  from pc have c1: "c \<noteq> []"
    by (simp add: plain_component_def)
  from pc have c2: "hd c \<noteq> CHR ''/''"
    by (cases c) (auto simp: plain_component_def)
  note c = c1 c2
  have "pstr p = join_sep (c # cs)"
    using assms(1) Cons by (simp add: pstr_def)
  then show ?thesis
    using c(2) join_sep_hd [OF c(1), of cs] by (simp add: startswith_slash)
qed

lemma scan_events_mutate:
  assumes "Mutate k v \<in> set (scan_events lower vf ps)"
  shows "\<exists>p\<in>set ps. k = lower (pstr p) \<and> v = ''skipped''"
proof -
  from assms obtain p where p: "p \<in> set ps"
    and m: "Mutate k v \<in> set (case vf p of
                         VIgnore \<Rightarrow> []
                       | VDone \<Rightarrow> []
                       | VSkip \<Rightarrow> [Probe p, Mutate (lower (pstr p)) ''skipped'']
                       | _ \<Rightarrow> [Probe p])"
    by (auto simp: scan_events_def)
  from m have "k = lower (pstr p) \<and> v = ''skipped''"
    by (cases "vf p") auto
  with p show ?thesis by blast
qed

lemma demo_relative_scan:
  "scan_videos ascii_lower demo_prober demo_relative_root [[''tiny.avi'']] demo_relative
     = Inr ([], demo_relative_scanned)"
  by (simp add: scan_eval demo_prober_def report_def demo_relative_root_def demo_relative_def
        demo_relative_scanned_def)

text \<open>
  C10, as stated, fails: with the root folder given as the relative path \<open>videos\<close>, the
  scan writes the key \<open>videos/tiny.avi\<close>, which is not an absolute path string.
\<close>

theorem relative_root_gives_relative_key:
  "scan_videos ascii_lower demo_prober demo_relative_root [[''tiny.avi'']] demo_relative
     = Inr ([], demo_relative_scanned)
   \<and> Mutate ''videos/tiny.avi'' ''skipped'' \<in> set (trace demo_relative_scanned)
   \<and> \<not> startswith ''videos/tiny.avi'' ''/''"
  using demo_relative_scan by (simp add: demo_relative_scanned_def startswith_def)

text \<open>
  C10, amended. Every key written to the state map is \<open>str(file_path).lower()\<close> for the
  path of the file as it is enumerated below the root folder as given: the scan writes it
  for one of the enumerated paths, a conversion for the path of its candidate. The string
  \<open>str(file_path)\<close> that is lower-cased is an absolute path string exactly when the root
  folder is given as an absolute path; for a root given as a relative path the key is the
  lower-cased relative path string. The lower-casing is the parameter \<open>lower\<close>, whatever
  function it is.
\<close>

theorem state_keys_are_lowered_paths:
  assumes "scan_videos lower prober folder_path tree w = Inr (worklist, w1)"
    and "convert_video lower enc keep_originals (file_path, width, height) w2 = (res, w3)"
    and "\<forall>c\<in>set (parts folder_path) \<union> \<Union> (set ` set tree). plain_component c"
  shows "(\<forall>k v. Mutate k v \<in> set (drop (length (trace w)) (trace w1)) \<longrightarrow>
            (\<exists>p\<in>set (rglob folder_path tree).
                k = lower (pstr p) \<and> startswith (pstr p) ''/'' = absolute folder_path))
         \<and> (\<forall>k v. Mutate k v \<in> set (drop (length (trace w2)) (trace w3)) \<longrightarrow>
              k = lower (pstr file_path))"
proof -
  note s = scan_videos_Inr [OF assms(1)]
  have abs: "startswith (pstr p) ''/'' = absolute folder_path"
    if "p \<in> set (rglob folder_path tree)" for p
  proof -
    from that obtain rel where rel: "rel \<in> set tree"
      and p: "p = Path (absolute folder_path) (parts folder_path @ rel)"
      by (auto simp: rglob_def)
    have plain: "\<forall>c\<in>set (parts p). plain_component c"
      using assms(3) rel p by auto
    show ?thesis
    proof (cases "absolute folder_path")
      case True
      then show ?thesis using pstr_absolute [of p] p by simp
    next
      case False
      then show ?thesis using pstr_relative [of p] plain p by simp
    qed
  qed
  have a: "\<exists>p\<in>set (rglob folder_path tree).
              k = lower (pstr p) \<and> startswith (pstr p) ''/'' = absolute folder_path"
    if "Mutate k v \<in> set (drop (length (trace w)) (trace w1))" for k v
  proof -
    from that have "Mutate k v \<in> set (scan_events lower (verdict_of lower prober w) (rglob folder_path tree))"
      unfolding s(5) by simp
    then obtain p where "p \<in> set (rglob folder_path tree)" "k = lower (pstr p)"
      using scan_events_mutate by blast
    then show ?thesis using abs by blast
  qed
  from convert_video_trace [where enc = enc, OF assms(2)]
  obtain evs v where c: "trace w3 = trace w2 @ evs @ [Mutate (lower (pstr file_path)) v, Persist (state w3)]"
    "state_events evs = []"
    by auto
  have b: "k = lower (pstr file_path)"
    if "Mutate k v' \<in> set (drop (length (trace w2)) (trace w3))" for k v'
  proof -
    from that have "Mutate k v' \<in> set evs \<or> k = lower (pstr file_path)"
      unfolding c(1) by auto
    moreover have "Mutate k v' \<notin> set evs"
      using no_state_event_member [OF c(2)] by fastforce
    ultimately show ?thesis by simp
  qed
  show ?thesis
    using a b by blast
qed

theorem state_keys_are_lowered_paths_witness:
  "scan_videos ascii_lower demo_prober demo_relative_root [[''tiny.avi'']] demo_relative
     = Inr ([], demo_relative_scanned)
   \<and> convert_video ascii_lower demo_encoder False (demo_file ''big.3gp'', JInt 640, JInt 480) demo_big
       = (fst (convert_video ascii_lower demo_encoder False (demo_file ''big.3gp'', JInt 640, JInt 480) demo_big),
          snd (convert_video ascii_lower demo_encoder False (demo_file ''big.3gp'', JInt 640, JInt 480) demo_big))
   \<and> plain_component ''videos'' \<and> plain_component ''tiny.avi''
   \<and> Mutate ''videos/tiny.avi'' ''skipped''
        \<in> set (drop (length (trace demo_relative)) (trace demo_relative_scanned))
   \<and> (\<exists>p\<in>set (rglob demo_relative_root [[''tiny.avi'']]).
         ''videos/tiny.avi'' = ascii_lower (pstr p)
         \<and> startswith (pstr p) ''/'' = absolute demo_relative_root)"
proof -
  have h1: "scan_videos ascii_lower demo_prober demo_relative_root [[''tiny.avi'']] demo_relative
              = Inr ([], demo_relative_scanned)"
    by (rule demo_relative_scan)
  have h2: "convert_video ascii_lower demo_encoder False (demo_file ''big.3gp'', JInt 640, JInt 480) demo_big
       = (fst (convert_video ascii_lower demo_encoder False (demo_file ''big.3gp'', JInt 640, JInt 480) demo_big),
          snd (convert_video ascii_lower demo_encoder False (demo_file ''big.3gp'', JInt 640, JInt 480) demo_big))"
    by simp
  have pc: "plain_component ''videos''" "plain_component ''tiny.avi''"
    by (simp_all add: plain_component_def)
  have h3: "\<forall>c\<in>set (parts demo_relative_root) \<union> \<Union> (set ` set [[''tiny.avi'']]).
              plain_component c"
    using pc by (simp add: demo_relative_root_def)
  have m: "Mutate ''videos/tiny.avi'' ''skipped''
        \<in> set (drop (length (trace demo_relative)) (trace demo_relative_scanned))"
    by (simp add: demo_relative_def demo_relative_scanned_def)
  from state_keys_are_lowered_paths [where enc = demo_encoder, OF h1 h2 h3] m
  have "\<exists>p\<in>set (rglob demo_relative_root [[''tiny.avi'']]).
          ''videos/tiny.avi'' = ascii_lower (pstr p)
          \<and> startswith (pstr p) ''/'' = absolute demo_relative_root"
    by blast
  with h1 h2 pc m show ?thesis by blast
qed

section \<open>A second run over the same folder\<close>























end
